theory Spec2Isabelle
  imports Main "HOL-Library.Word"
begin

unbundle bit_operations_syntax

section \<open>The review generator of \<open>projet_azure/generate_reviews.py\<close>\<close>

text \<open>
  The script draws from three sources of randomness and reads the system date, so the
  model threads an explicit world through every call:
  \<^item> the module globals \<open>airlines\<close>, \<open>sample_titles\<close>, \<open>sample_bodies\<close> (Python lists,
    mutable in principle, so they are fields of the state and not constants);
  \<^item> the hidden generator of module \<open>random\<close>, the operating system's entropy read by
    \<open>uuid.uuid4\<close>, and the generator owned by the \<open>Faker()\<close> instance, each an infinite
    tape of raw draws with a cursor;
  \<^item> the system's local date as a function of the seconds the process has slept, and
    the trace of what the process wrote and how long it slept.
  Strings are sequences of code points below 256.
\<close>

subsection \<open>Errors and values\<close>

datatype py_error = IndexError | ValueError

datatype pyval = PyStr string | PyInt int

type_synonym review = "(string \<times> pyval) list"

subsection \<open>Randomness\<close>

record rng =
  tape :: "nat \<Rightarrow> nat"
  used :: nat

text \<open>
  \<open>Random._randbelow(n)\<close>, defined for \<open>n > 0\<close>, returns some \<open>k\<close> with \<open>0 \<le> k < n\<close>;
  the next raw draw is reduced into that range.
\<close>

definition randbelow :: "nat \<Rightarrow> rng \<Rightarrow> nat \<times> rng" where
  "randbelow n g = (tape g (used g) mod n, g\<lparr>used := Suc (used g)\<rparr>)"

text \<open>
  \<open>random.choice(seq)\<close>: \<open>IndexError\<close> on an empty sequence, otherwise
  \<open>seq[self._randbelow(len(seq))]\<close>.
\<close>

definition random_choice :: "'a list \<Rightarrow> rng \<Rightarrow> py_error + ('a \<times> rng)" where
  "random_choice seq g =
     (if length seq = 0 then Inl IndexError
      else case randbelow (length seq) g of (i, g') \<Rightarrow> Inr (seq ! i, g'))"

text \<open>
  \<open>random.randint(a, b)\<close> is \<open>randrange(a, b + 1)\<close>: \<open>ValueError\<close> on an empty range,
  otherwise \<open>a + self._randbelow(b + 1 - a)\<close>.
\<close>

definition random_randint :: "int \<Rightarrow> int \<Rightarrow> rng \<Rightarrow> py_error + (int \<times> rng)" where
  "random_randint a b g =
     (let width = b + 1 - a in
      if width > 0 then (case randbelow (nat width) g of (k, g') \<Rightarrow> Inr (a + int k, g'))
      else Inl ValueError)"

subsection \<open>Identifiers: \<open>str(uuid.uuid4())\<close>\<close>

text \<open>
  \<open>uuid.uuid4()\<close> is \<open>UUID(bytes=os.urandom(16), version=4)\<close>. The sixteen bytes are
  read as one big-endian 128-bit integer, and the constructor then stamps the variant
  and the version:
  \<^verbatim>\<open>
    int &= ~(0xc000 << 48)
    int |= 0x8000 << 48
    int &= ~(0xf000 << 64)
    int |= version << 76
  \<close>
\<close>

definition os_urandom16 :: "rng \<Rightarrow> 128 word \<times> rng" where
  "os_urandom16 g = (word_of_nat (tape g (used g)), g\<lparr>used := Suc (used g)\<rparr>)"

definition uuid_stamp :: "128 word \<Rightarrow> 128 word \<Rightarrow> 128 word" where
  "uuid_stamp version i0 =
     (let i1 = i0 AND NOT (push_bit 48 0xc000);
          i2 = i1 OR push_bit 48 0x8000;
          i3 = i2 AND NOT (push_bit 64 0xf000);
          i4 = i3 OR push_bit 76 version
      in i4)"

definition uuid4 :: "rng \<Rightarrow> 128 word \<times> rng" where
  "uuid4 g = (case os_urandom16 g of (b, g') \<Rightarrow> (uuid_stamp 4 b, g'))"

definition hexdigit :: "nat \<Rightarrow> char" where
  "hexdigit k = (if k < 10 then char_of (48 + k) else char_of (87 + k))"

text \<open>\<open>'%032x' % self.int\<close>: the 32 hexadecimal digits, most significant first.\<close>

definition hex32 :: "128 word \<Rightarrow> string" where
  "hex32 u = map (\<lambda>i. hexdigit (unat (take_bit 4 (drop_bit (4 * (31 - i)) u)))) [0..<32]"

text \<open>
  \<open>UUID.__str__\<close>:
  \<open>'%s-%s-%s-%s-%s' % (hex[:8], hex[8:12], hex[12:16], hex[16:20], hex[20:])\<close>.
\<close>

definition uuid_str :: "128 word \<Rightarrow> string" where
  "uuid_str u =
     (let h = hex32 u in
      take 8 h @ ''-'' @ take 4 (drop 8 h) @ ''-'' @ take 4 (drop 12 h) @ ''-''
        @ take 4 (drop 16 h) @ ''-'' @ drop 20 h)"

subsection \<open>Calendar dates\<close>

record pydate =
  year :: nat
  month :: nat
  day :: nat

definition is_leap :: "nat \<Rightarrow> bool" where
  "is_leap y = (y mod 4 = 0 \<and> (y mod 100 \<noteq> 0 \<or> y mod 400 = 0))"

definition month_lengths :: "nat \<Rightarrow> nat list" where
  "month_lengths y =
     [31, if is_leap y then 29 else 28, 31, 30, 31, 30, 31, 31, 30, 31, 30, 31]"

definition days_in_month :: "nat \<Rightarrow> nat \<Rightarrow> nat" where
  "days_in_month y m = month_lengths y ! (m - 1)"

text \<open>The dates \<open>datetime.date\<close> can hold: years 1 to 9999 of the Gregorian calendar.\<close>

definition valid_date :: "pydate \<Rightarrow> bool" where
  "valid_date d =
     (1 \<le> year d \<and> year d \<le> 9999 \<and> 1 \<le> month d \<and> month d \<le> 12 \<and>
      1 \<le> day d \<and> day d \<le> days_in_month (year d) (month d))"

text \<open>\<open>(d - d.replace(month=1, day=1)).days\<close>: the days elapsed since 1 January.\<close>

definition yday :: "pydate \<Rightarrow> nat" where
  "yday d = sum_list (take (month d - 1) (month_lengths (year d))) + (day d - 1)"

fun locate :: "nat list \<Rightarrow> nat \<Rightarrow> nat \<Rightarrow> nat \<times> nat" where
  "locate [] m k = (m, Suc k)"
| "locate (l # ls) m k = (if k < l then (m, Suc k) else locate ls (Suc m) (k - l))"

text \<open>\<open>date(y, 1, 1) + timedelta(days=k)\<close>, for \<open>k\<close> within the year \<open>y\<close>.\<close>

definition from_yday :: "nat \<Rightarrow> nat \<Rightarrow> pydate" where
  "from_yday y k =
     (case locate (month_lengths y) 1 k of (m, dd) \<Rightarrow> \<lparr>year = y, month = m, day = dd\<rparr>)"

definition date_le :: "pydate \<Rightarrow> pydate \<Rightarrow> bool" where
  "date_le a b =
     (year a < year b \<or> (year a = year b \<and>
        (month a < month b \<or> (month a = month b \<and> day a \<le> day b))))"

subsection \<open>Decimal rendering and \<open>strftime("%Y-%m-%d")\<close>\<close>

definition digit :: "nat \<Rightarrow> char" where
  "digit k = char_of (48 + k)"

fun dec :: "nat \<Rightarrow> string" where
  "dec n = (if n < 10 then [digit n] else dec (n div 10) @ [digit (n mod 10)])"

declare dec.simps [simp del]

definition zfill :: "nat \<Rightarrow> string \<Rightarrow> string" where
  "zfill w s = replicate (w - length s) (CHR ''0'') @ s"

text \<open>\<open>%Y\<close> is the year zero-filled to four digits, \<open>%m\<close> and \<open>%d\<close> to two.\<close>

definition strftime_ymd :: "pydate \<Rightarrow> string" where
  "strftime_ymd d =
     zfill 4 (dec (year d)) @ ''-'' @ zfill 2 (dec (month d)) @ ''-'' @ zfill 2 (dec (day d))"

subsection \<open>The Faker instance\<close>

text \<open>
  \<open>faker.name()\<close> returns a person name produced by the locale's provider from the
  instance's generator. The provider's tables are library data: the world carries the
  provider as a function of the draw.
\<close>

definition faker_name :: "(nat \<Rightarrow> string) \<Rightarrow> rng \<Rightarrow> string \<times> rng" where
  "faker_name provider g = (provider (tape g (used g)), g\<lparr>used := Suc (used g)\<rparr>)"

text \<open>
  \<open>faker.date_this_year()\<close> is called with its defaults \<open>before_today=True\<close>,
  \<open>after_today=False\<close>: with \<open>today = date.today()\<close> and
  \<open>this_year_start = today.replace(month=1, day=1)\<close> it returns
  \<open>date_between_dates(this_year_start, today)\<close>, a day between the two, both ends
  included, chosen by the instance's generator.
\<close>

definition faker_date_this_year :: "pydate \<Rightarrow> rng \<Rightarrow> pydate \<times> rng" where
  "faker_date_this_year today g =
     (let this_year_start = today\<lparr>month := 1, day := 1\<rparr>;
          span = yday today - yday this_year_start
      in case randbelow (span + 1) g of
           (k, g') \<Rightarrow> (from_yday (year this_year_start) k, g'))"

subsection \<open>The world and \<open>generate_fake_review\<close>\<close>

datatype event = Stdout string | Sleep nat

record world =
  airlines :: "string list"
  sample_titles :: "string list"
  sample_bodies :: "string list"
  random_inst :: rng
  os_entropy :: rng
  faker_random :: rng
  faker_person :: "nat \<Rightarrow> string"
  system_date :: "nat \<Rightarrow> pydate"
  clock :: nat
  trace :: "event list"

definition date_today :: "world \<Rightarrow> pydate" where
  "date_today w = system_date w (clock w)"

text \<open>The list literals of lines 8 to 38, bound to the three globals when the module loads.\<close>

definition airlines_literal :: "string list" where
  "airlines_literal =
     [''Air France'', ''Royal Air Maroc'', ''Air Arabia'', ''Emirates'',
      ''Saudia'', ''Ryanair'', ''Qatar Airways'', ''Lufthansa'',
      ''TAP Air Portugal'', ''KLM'', ''Turkish Airlines'', ''EasyJet'']"

definition sample_titles_literal :: "string list" where
  "sample_titles_literal =
     [''Excellent experience'', ''Terrible flight'', ''Smooth journey'', ''Great service'',
      ''Awful food'', ''Lost luggage'', ''On-time and comfortable'', ''Never again'',
      ''Highly recommended'', ''Mediocre experience'', ''Delayed and frustrating'',
      ''Crew was amazing'', ''Unexpectedly good'', ''Total disappointment'',
      ''Worth every penny'', ''Terrible customer service'']"

definition sample_bodies_literal :: "string list" where
  "sample_bodies_literal =
     [''The flight was on time and the crew was extremely helpful and friendly.'',
      ''I had the worst experience ever. The staff was rude and the plane was dirty.'',
      ''Seats were comfortable and there was plenty of legroom. Great value for the money.'',
      ''The food served on board was awful. Cold and tasteless.'',
      ''We departed late but arrived early. Impressive time management.'',
      ''Customer service was unreachable and offered no help with my issue.'',
      ''The cabin was clean and the inflight entertainment was decent.'',
      ''I will never book with this airline again. Completely unprofessional.'',
      ''Everything went smoothly. Luggage arrived on time and check-in was fast.'',
      ''Very noisy cabin and poor handling of turbulence.'',
      ''The flight attendants were polite and always smiling. It made a difference.'',
      ''They lost my suitcase and it took over a week to get it back.'',
      ''Boarding process was chaotic and disorganized.'',
      ''It was a short flight but surprisingly comfortable. Would fly again.'',
      ''They overbooked the flight and bumped me off. Unacceptable.'',
      ''Inflight entertainment was outdated and barely worked.'']"

text \<open>
  The state after lines 1 to 38 have run: the three globals hold their literals. The
  environment (generators, name provider, system date) is whatever the machine gives.
\<close>

definition module_loaded :: "world \<Rightarrow> bool" where
  "module_loaded w =
     (airlines w = airlines_literal \<and> sample_titles w = sample_titles_literal \<and>
      sample_bodies w = sample_bodies_literal)"

text \<open>An exception raised by a call propagates: the rest of the body is skipped.\<close>

definition py_bind :: "py_error + 'a \<Rightarrow> ('a \<Rightarrow> py_error + 'b) \<Rightarrow> py_error + 'b" where
  "py_bind r f = (case r of Inl err \<Rightarrow> Inl err | Inr x \<Rightarrow> f x)"

definition generate_fake_review :: "world \<Rightarrow> py_error + (review \<times> world)" where
  "generate_fake_review w =
     (case uuid4 (os_entropy w) of (u, e1) \<Rightarrow>
      (let review_id = uuid_str u in
       py_bind (random_choice (airlines w) (random_inst w)) (\<lambda>(airline, r1).
       py_bind (random_choice (sample_titles w) r1) (\<lambda>(title, r2).
       py_bind (random_choice (sample_bodies w) r2) (\<lambda>(body, r3).
       (case faker_name (faker_person w) (faker_random w) of (reviewer, f1) \<Rightarrow>
        py_bind (random_randint 1 5 r3) (\<lambda>(rating, r4).
        (case faker_date_this_year (date_today w) f1 of (d, f2) \<Rightarrow>
         (let date = strftime_ymd d in
          Inr ([(''review_id'', PyStr review_id),
                (''airline'', PyStr airline),
                (''reviewer'', PyStr reviewer),
                (''rating'', PyInt rating),
                (''date'', PyStr date),
                (''title'', PyStr title),
                (''body'', PyStr body)],
               w\<lparr>random_inst := r4, os_entropy := e1, faker_random := f2\<rparr>))))))))))"

text \<open>\<open>n\<close> calls in a row, each on the world the previous one left.\<close>

fun generate_n :: "nat \<Rightarrow> world \<Rightarrow> py_error + (review list \<times> world)" where
  "generate_n 0 w = Inr ([], w)"
| "generate_n (Suc n) w =
     py_bind (generate_fake_review w) (\<lambda>(r, w1).
     py_bind (generate_n n w1) (\<lambda>(rs, w2). Inr (r # rs, w2)))"

subsection \<open>Rendering: \<open>repr\<close> of strings, integers and dictionaries\<close>

text \<open>
  \<open>repr\<close> of a \<open>str\<close>: the quote is \<open>'\<close> unless the text has a \<open>'\<close> and no \<open>"\<close>; the
  quote and the backslash are escaped with a backslash; tab, newline and carriage return
  become \<open>\t\<close>, \<open>\n\<close>, \<open>\r\<close>; every other non-printable code point below 256 becomes
  \<open>\xhh\<close>.
\<close>

definition repr_quote :: "string \<Rightarrow> char" where
  "repr_quote s = (if CHR 0x27 \<in> set s \<and> CHR 0x22 \<notin> set s then CHR 0x22 else CHR 0x27)"

definition py_printable :: "char \<Rightarrow> bool" where
  "py_printable c =
     (let n = (of_char c :: nat) in (32 \<le> n \<and> n < 127) \<or> (161 \<le> n \<and> n \<noteq> 173))"

definition repr_char :: "char \<Rightarrow> char \<Rightarrow> string" where
  "repr_char q c =
     (if c = q \<or> c = CHR 0x5C then [CHR 0x5C, c]
      else if c = CHR 0x09 then [CHR 0x5C, CHR ''t'']
      else if c = CHR 0x0A then [CHR 0x5C, CHR ''n'']
      else if c = CHR 0x0D then [CHR 0x5C, CHR ''r'']
      else if py_printable c then [c]
      else [CHR 0x5C, CHR ''x'', hexdigit (of_char c div 16), hexdigit (of_char c mod 16)])"

definition repr_str :: "string \<Rightarrow> string" where
  "repr_str s = (let q = repr_quote s in [q] @ concat (map (repr_char q) s) @ [q])"

definition repr_int :: "int \<Rightarrow> string" where
  "repr_int i = (if i < 0 then CHR ''-'' # dec (nat (- i)) else dec (nat i))"

fun repr_val :: "pyval \<Rightarrow> string" where
  "repr_val (PyStr s) = repr_str s"
| "repr_val (PyInt i) = repr_int i"

fun join :: "string \<Rightarrow> string list \<Rightarrow> string" where
  "join sep [] = []"
| "join sep [x] = x"
| "join sep (x # y # ys) = x @ sep @ join sep (y # ys)"

text \<open>\<open>repr\<close> of a \<open>dict\<close>: \<open>{k1: v1, k2: v2, ...}\<close> in insertion order.\<close>

definition repr_dict :: "review \<Rightarrow> string" where
  "repr_dict d = ''{'' @ join '', '' (map (\<lambda>(k, v). repr_str k @ '': '' @ repr_val v) d) @ ''}''"

subsection \<open>The driver loop (lines 60 to 64)\<close>

text \<open>
  \<open>print(s)\<close> writes \<open>s\<close> and a newline to standard output; \<open>time.sleep(n)\<close> suspends
  the process for \<open>n\<close> seconds. Standard output is taken to be writable.
\<close>

definition print :: "string \<Rightarrow> world \<Rightarrow> world" where
  "print s w = w\<lparr>trace := trace w @ [Stdout (s @ [CHR 0x0A])]\<rparr>"

definition time_sleep :: "nat \<Rightarrow> world \<Rightarrow> world" where
  "time_sleep n w = w\<lparr>clock := clock w + n, trace := trace w @ [Sleep n]\<rparr>"

definition loop_body :: "world \<Rightarrow> py_error + world" where
  "loop_body w =
     py_bind (generate_fake_review w) (\<lambda>(review, w1).
       (let w2 = print (CHR 0x0A # '' New Review Generated:'') w1;
            w3 = print ('' Review ID: '' @ repr_dict review) w2;
            w4 = time_sleep 5 w3
        in Inr w4))"



subsection \<open>A concrete world\<close>

text \<open>
  A freshly loaded module on 1 March 2024, with fixed tapes; the theorems below are
  instantiated on it.
\<close>

definition example_world :: world where
  "example_world =
     \<lparr>airlines = airlines_literal,
      sample_titles = sample_titles_literal,
      sample_bodies = sample_bodies_literal,
      random_inst = \<lparr>tape = (\<lambda>i. 7 * i + 3), used = 0\<rparr>,
      os_entropy = \<lparr>tape = (\<lambda>i. 12345678901234567890 * (i + 1)), used = 0\<rparr>,
      faker_random = \<lparr>tape = (\<lambda>i. 100 + i), used = 0\<rparr>,
      faker_person = (\<lambda>k. ''Jane Doe''),
      system_date = (\<lambda>s. \<lparr>year = 2024, month = 3, day = 1\<rparr>),
      clock = 0,
      trace = []\<rparr>"

subsection \<open>Reading a date back\<close>

text \<open>
  What ``parses as a valid calendar date'' means for a text \<open>YYYY-MM-DD\<close>, as
  \<open>date.fromisoformat\<close> reads it: ten characters, hyphens at positions 4 and 7, decimal
  digits elsewhere, and the three numbers form a date of the calendar.
\<close>

definition digit_val :: "char \<Rightarrow> nat option" where
  "digit_val c =
     (let n = (of_char c :: nat) in if 48 \<le> n \<and> n \<le> 57 then Some (n - 48) else None)"

fun parse_digits :: "nat \<Rightarrow> string \<Rightarrow> nat option" where
  "parse_digits acc [] = Some acc"
| "parse_digits acc (c # cs) =
     (case digit_val c of None \<Rightarrow> None | Some v \<Rightarrow> parse_digits (10 * acc + v) cs)"

definition parse_ymd :: "string \<Rightarrow> pydate option" where
  "parse_ymd s =
     (if length s = 10 \<and> s ! 4 = CHR ''-'' \<and> s ! 7 = CHR ''-'' then
        (case (parse_digits 0 (take 4 s), parse_digits 0 (take 2 (drop 5 s)),
               parse_digits 0 (drop 8 s)) of
           (Some y, Some m, Some d) \<Rightarrow>
             (let dt = \<lparr>year = y, month = m, day = d\<rparr>
              in if valid_date dt then Some dt else None)
         | _ \<Rightarrow> None)
      else None)"

subsection \<open>What a call may change, and what a valid record is\<close>

text \<open>
  ``No side effect other than consuming randomness and the unique-id generator'': the
  second world differs from the first at most in the cursors of the three generators,
  which have not moved back.
\<close>

definition only_consumes_randomness :: "world \<Rightarrow> world \<Rightarrow> bool" where
  "only_consumes_randomness w w' =
     (airlines w' = airlines w \<and> sample_titles w' = sample_titles w \<and>
      sample_bodies w' = sample_bodies w \<and> faker_person w' = faker_person w \<and>
      system_date w' = system_date w \<and> clock w' = clock w \<and> trace w' = trace w \<and>
      tape (random_inst w') = tape (random_inst w) \<and>
      used (random_inst w) \<le> used (random_inst w') \<and>
      tape (os_entropy w') = tape (os_entropy w) \<and>
      used (os_entropy w) \<le> used (os_entropy w') \<and>
      tape (faker_random w') = tape (faker_random w) \<and>
      used (faker_random w) \<le> used (faker_random w'))"

text \<open>
  ``Independently valid'': the record alone meets the per-record properties of the
  specification, for the given current date.
\<close>

definition valid_review :: "pydate \<Rightarrow> review \<Rightarrow> bool" where
  "valid_review today r =
     ((case map_of r ''airline'' of Some (PyStr a) \<Rightarrow> a \<in> set airlines_literal | _ \<Rightarrow> False) \<and>
      (case map_of r ''title'' of Some (PyStr t) \<Rightarrow> t \<in> set sample_titles_literal | _ \<Rightarrow> False) \<and>
      (case map_of r ''body'' of Some (PyStr b) \<Rightarrow> b \<in> set sample_bodies_literal | _ \<Rightarrow> False) \<and>
      (case map_of r ''rating'' of Some (PyInt n) \<Rightarrow> 1 \<le> n \<and> n \<le> 5 | _ \<Rightarrow> False) \<and>
      (case map_of r ''date'' of
         Some (PyStr s) \<Rightarrow>
           (case parse_ymd s of Some d \<Rightarrow> year d = year today | None \<Rightarrow> False)
       | _ \<Rightarrow> False))"


section \<open>Properties\<close>

lemma yday_start: "yday (d\<lparr>month := 1, day := 1\<rparr>) = 0"
  by (simp add: yday_def)

lemma random_choice_Inr:
  "seq \<noteq> [] \<Longrightarrow>
   random_choice seq g = Inr (seq ! (tape g (used g) mod length seq), g\<lparr>used := Suc (used g)\<rparr>)"
  by (simp add: random_choice_def randbelow_def)

lemma random_choice_Nil: "random_choice [] g = Inl IndexError"
  by (simp add: random_choice_def)

lemma random_randint_1_5:
  "random_randint 1 5 g = Inr (1 + int (tape g (used g) mod 5), g\<lparr>used := Suc (used g)\<rparr>)"
  by (simp add: random_randint_def randbelow_def)

lemma faker_date_this_year_eq:
  "faker_date_this_year today g =
     (from_yday (year today) (tape g (used g) mod (yday today + 1)), g\<lparr>used := Suc (used g)\<rparr>)"
  by (simp add: faker_date_this_year_def randbelow_def yday_def)

lemma generate_fake_review_Inr:
  assumes "airlines w \<noteq> []" "sample_titles w \<noteq> []" "sample_bodies w \<noteq> []"
  shows "generate_fake_review w =
    Inr ([(''review_id'', PyStr (uuid_str (uuid_stamp 4 (word_of_nat (tape (os_entropy w) (used (os_entropy w))))))),
          (''airline'', PyStr (airlines w ! (tape (random_inst w) (used (random_inst w)) mod length (airlines w)))),
          (''reviewer'', PyStr (faker_person w (tape (faker_random w) (used (faker_random w))))),
          (''rating'', PyInt (1 + int (tape (random_inst w) (Suc (Suc (Suc (used (random_inst w))))) mod 5))),
          (''date'', PyStr (strftime_ymd (from_yday (year (date_today w))
              (tape (faker_random w) (Suc (used (faker_random w))) mod (yday (date_today w) + 1))))),
          (''title'', PyStr (sample_titles w ! (tape (random_inst w) (Suc (used (random_inst w))) mod length (sample_titles w)))),
          (''body'', PyStr (sample_bodies w ! (tape (random_inst w) (Suc (Suc (used (random_inst w)))) mod length (sample_bodies w))))],
         w\<lparr>random_inst := (random_inst w)\<lparr>used := Suc (Suc (Suc (Suc (used (random_inst w)))))\<rparr>,
           os_entropy := (os_entropy w)\<lparr>used := Suc (used (os_entropy w))\<rparr>,
           faker_random := (faker_random w)\<lparr>used := Suc (Suc (used (faker_random w)))\<rparr>\<rparr>)"
  using assms
  by (simp add: generate_fake_review_def uuid4_def os_urandom16_def py_bind_def faker_name_def
      random_choice_Inr random_randint_1_5 faker_date_this_year_eq)

lemma generate_fake_review_Inl:
  assumes "airlines w = [] \<or> sample_titles w = [] \<or> sample_bodies w = []"
  shows "generate_fake_review w = Inl IndexError"
proof -
  obtain u e1 where u: "uuid4 (os_entropy w) = (u, e1)" by (cases "uuid4 (os_entropy w)")
  show ?thesis
  proof (cases "airlines w = []")
    case True
    then show ?thesis
      by (simp add: generate_fake_review_def u random_choice_Nil py_bind_def)
  next
    case a: False
    show ?thesis
    proof (cases "sample_titles w = []")
      case True
      with a show ?thesis
        by (simp add: generate_fake_review_def u random_choice_Nil random_choice_Inr py_bind_def)
    next
      case False
      with a assms have "sample_bodies w = []" by simp
      with a False show ?thesis
        by (simp add: generate_fake_review_def u random_choice_Nil random_choice_Inr py_bind_def)
    qed
  qed
qed

lemma pools_nonempty:
  assumes "module_loaded w"
  shows "airlines w \<noteq> []" and "sample_titles w \<noteq> []" and "sample_bodies w \<noteq> []"
  using assms
  by (simp_all add: module_loaded_def airlines_literal_def sample_titles_literal_def
      sample_bodies_literal_def)

lemma example_world_loaded: "module_loaded example_world"
  by (simp add: module_loaded_def example_world_def)

lemma generate_Inr_pools:
  assumes "generate_fake_review w = Inr (r, w')"
  shows "airlines w \<noteq> []" and "sample_titles w \<noteq> []" and "sample_bodies w \<noteq> []"
  using generate_fake_review_Inl [of w] assms by auto

lemma generate_fake_review_succeeds:
  assumes "airlines w \<noteq> []" "sample_titles w \<noteq> []" "sample_bodies w \<noteq> []"
  shows "\<exists>r w'. generate_fake_review w = Inr (r, w')"
  using generate_fake_review_Inr [OF assms] by blast

lemma generate_fake_review_result:
  assumes "generate_fake_review w = Inr (r, w')"
  shows "r = [(''review_id'', PyStr (uuid_str (uuid_stamp 4 (word_of_nat (tape (os_entropy w) (used (os_entropy w))))))),
          (''airline'', PyStr (airlines w ! (tape (random_inst w) (used (random_inst w)) mod length (airlines w)))),
          (''reviewer'', PyStr (faker_person w (tape (faker_random w) (used (faker_random w))))),
          (''rating'', PyInt (1 + int (tape (random_inst w) (Suc (Suc (Suc (used (random_inst w))))) mod 5))),
          (''date'', PyStr (strftime_ymd (from_yday (year (date_today w))
              (tape (faker_random w) (Suc (used (faker_random w))) mod (yday (date_today w) + 1))))),
          (''title'', PyStr (sample_titles w ! (tape (random_inst w) (Suc (used (random_inst w))) mod length (sample_titles w)))),
          (''body'', PyStr (sample_bodies w ! (tape (random_inst w) (Suc (Suc (used (random_inst w)))) mod length (sample_bodies w))))]"
    and "w' = w\<lparr>random_inst := (random_inst w)\<lparr>used := Suc (Suc (Suc (Suc (used (random_inst w)))))\<rparr>,
           os_entropy := (os_entropy w)\<lparr>used := Suc (used (os_entropy w))\<rparr>,
           faker_random := (faker_random w)\<lparr>used := Suc (Suc (used (faker_random w)))\<rparr>\<rparr>"
  using assms generate_fake_review_Inr [OF generate_Inr_pools [OF assms]]
  by (simp_all only: sum.inject prod.inject)

lemma field_rating:
  assumes "generate_fake_review w = Inr (r, w')"
  shows "map_of r ''rating'' =
     Some (PyInt (1 + int (tape (random_inst w) (Suc (Suc (Suc (used (random_inst w))))) mod 5)))"
  unfolding generate_fake_review_result(1) [OF assms] by simp

subsection \<open>Success and failure of \<open>generate_fake_review\<close>\<close>

text \<open>
  C5. \<open>generate_fake_review\<close> takes nothing but the world. Its only error branches are
  the three \<open>random.choice\<close> calls on an empty pool and \<open>random.randint\<close> on an empty
  range; the range \<open>[1, 5]\<close> is not empty, so the call raises exactly when one of the
  pools is empty. After the module has loaded the pools hold their non-empty literals,
  hence the call returns a record whatever the generators, the name provider and the
  system date are.
\<close>

theorem generate_fake_review_always_succeeds:
  "(module_loaded w \<longrightarrow>
      airlines w \<noteq> [] \<and> sample_titles w \<noteq> [] \<and> sample_bodies w \<noteq> [] \<and>
      (\<exists>r w'. generate_fake_review w = Inr (r, w'))) \<and>
   ((\<exists>e. generate_fake_review w = Inl e) \<longleftrightarrow>
      (airlines w = [] \<or> sample_titles w = [] \<or> sample_bodies w = []))"
proof -
  have a: "module_loaded w \<longrightarrow>
      airlines w \<noteq> [] \<and> sample_titles w \<noteq> [] \<and> sample_bodies w \<noteq> [] \<and>
      (\<exists>r w'. generate_fake_review w = Inr (r, w'))"
  proof
    assume l: "module_loaded w"
    show "airlines w \<noteq> [] \<and> sample_titles w \<noteq> [] \<and> sample_bodies w \<noteq> [] \<and>
      (\<exists>r w'. generate_fake_review w = Inr (r, w'))"
      using pools_nonempty [OF l] generate_fake_review_succeeds [OF pools_nonempty [OF l]]
      by simp
  qed
  have b: "(\<exists>e. generate_fake_review w = Inl e) \<longleftrightarrow>
      (airlines w = [] \<or> sample_titles w = [] \<or> sample_bodies w = [])"
  proof
    assume l: "\<exists>e. generate_fake_review w = Inl e"
    show "airlines w = [] \<or> sample_titles w = [] \<or> sample_bodies w = []"
    proof (rule ccontr)
      assume "\<not> (airlines w = [] \<or> sample_titles w = [] \<or> sample_bodies w = [])"
      then have "airlines w \<noteq> []" "sample_titles w \<noteq> []" "sample_bodies w \<noteq> []"
        by simp_all
      from generate_fake_review_succeeds [OF this] l show False by auto
    qed
  next
    assume "airlines w = [] \<or> sample_titles w = [] \<or> sample_bodies w = []"
    then show "\<exists>e. generate_fake_review w = Inl e"
      using generate_fake_review_Inl [of w] by blast
  qed
  from a b show ?thesis by (rule conjI)
qed

theorem generate_fake_review_always_succeeds_witness:
  "module_loaded example_world \<and> (\<exists>r w'. generate_fake_review example_world = Inr (r, w')) \<and>
   \<not> (\<exists>e. generate_fake_review example_world = Inl e)"
proof -
  note t = generate_fake_review_always_succeeds [of example_world]
  have l: "module_loaded example_world"
    by (simp add: module_loaded_def example_world_def)
  have ne: "airlines example_world \<noteq> [] \<and> sample_titles example_world \<noteq> [] \<and>
      sample_bodies example_world \<noteq> [] \<and>
      (\<exists>r w'. generate_fake_review example_world = Inr (r, w'))"
    by (rule t [THEN conjunct1, THEN mp, OF l])
  from t have "(\<exists>e. generate_fake_review example_world = Inl e) \<longleftrightarrow>
      (airlines example_world = [] \<or> sample_titles example_world = [] \<or>
       sample_bodies example_world = [])"
    by (rule conjunct2)
  with ne have "\<not> (\<exists>e. generate_fake_review example_world = Inl e)" by blast
  with l ne show ?thesis by blast
qed

subsection \<open>The rating\<close>



subsection \<open>Airline, title and body\<close>

lemma field_airline:
  assumes "generate_fake_review w = Inr (r, w')"
  shows "map_of r ''airline'' =
     Some (PyStr (airlines w ! (tape (random_inst w) (used (random_inst w)) mod length (airlines w))))"
  unfolding generate_fake_review_result(1) [OF assms] by simp

lemma field_title:
  assumes "generate_fake_review w = Inr (r, w')"
  shows "map_of r ''title'' =
     Some (PyStr (sample_titles w ! (tape (random_inst w) (Suc (used (random_inst w))) mod length (sample_titles w))))"
  unfolding generate_fake_review_result(1) [OF assms] by simp

lemma field_body:
  assumes "generate_fake_review w = Inr (r, w')"
  shows "map_of r ''body'' =
     Some (PyStr (sample_bodies w ! (tape (random_inst w) (Suc (Suc (used (random_inst w)))) mod length (sample_bodies w))))"
  unfolding generate_fake_review_result(1) [OF assms] by simp

lemma nth_mod_mem: "xs \<noteq> [] \<Longrightarrow> xs ! (k mod length xs) \<in> set xs"
  by simp

text \<open>
  C3. With the pools as the module loads them, the airline of every returned record is
  one of the twelve strings of \<open>airlines\<close>, its title one of \<open>sample_titles\<close> and its
  body one of \<open>sample_bodies\<close>.
\<close>

theorem pool_fields_are_members:
  assumes "module_loaded w" and "generate_fake_review w = Inr (r, w')"
  shows "length airlines_literal = 12 \<and>
         (\<exists>a t b. map_of r ''airline'' = Some (PyStr a) \<and> a \<in> set airlines_literal \<and>
                  map_of r ''title'' = Some (PyStr t) \<and> t \<in> set sample_titles_literal \<and>
                  map_of r ''body'' = Some (PyStr b) \<and> b \<in> set sample_bodies_literal)"
proof -
  have eqs: "airlines w = airlines_literal" "sample_titles w = sample_titles_literal"
    "sample_bodies w = sample_bodies_literal"
    using assms(1) by (simp_all add: module_loaded_def)
  note ne = pools_nonempty [OF assms(1)]
  have "length airlines_literal = 12" by (simp add: airlines_literal_def)
  moreover have "airlines w ! (tape (random_inst w) (used (random_inst w)) mod length (airlines w))
      \<in> set airlines_literal"
    using nth_mod_mem [OF ne(1)] by (simp only: eqs)
  moreover have "sample_titles w ! (tape (random_inst w) (Suc (used (random_inst w))) mod length (sample_titles w))
      \<in> set sample_titles_literal"
    using nth_mod_mem [OF ne(2)] by (simp only: eqs)
  moreover have "sample_bodies w ! (tape (random_inst w) (Suc (Suc (used (random_inst w)))) mod length (sample_bodies w))
      \<in> set sample_bodies_literal"
    using nth_mod_mem [OF ne(3)] by (simp only: eqs)
  ultimately show ?thesis
    using field_airline [OF assms(2)] field_title [OF assms(2)] field_body [OF assms(2)]
    by blast
qed

theorem pool_fields_are_members_witness:
  "module_loaded example_world \<and>
   (\<exists>r w'. generate_fake_review example_world = Inr (r, w') \<and>
      (\<exists>a t b. map_of r ''airline'' = Some (PyStr a) \<and> a \<in> set airlines_literal \<and>
                  map_of r ''title'' = Some (PyStr t) \<and> t \<in> set sample_titles_literal \<and>
                  map_of r ''body'' = Some (PyStr b) \<and> b \<in> set sample_bodies_literal))"
proof -
  obtain r w' where g: "generate_fake_review example_world = Inr (r, w')"
    using generate_fake_review_succeeds [OF pools_nonempty [OF example_world_loaded]] by blast
  from pool_fields_are_members [OF example_world_loaded g] g example_world_loaded
  show ?thesis by blast
qed

subsection \<open>The calendar\<close>

lemma sum_take_le: "sum_list (take i ls) \<le> sum_list (ls :: nat list)"
proof -
  have "sum_list ls = sum_list (take i ls) + sum_list (drop i ls)"
    by (metis append_take_drop_id sum_list.append)
  then show ?thesis by simp
qed

lemma sum_take_Suc:
  "i < length ls \<Longrightarrow> sum_list (take (Suc i) ls) = sum_list (take i ls) + (ls ! i :: nat)"
  by (simp add: take_Suc_conv_app_nth)

lemma sum_take_mono: "i \<le> j \<Longrightarrow> sum_list (take i ls) \<le> sum_list (take j (ls :: nat list))"
proof -
  assume "i \<le> j"
  then have "take i ls = take i (take j ls)" by (simp add: min_def)
  then show ?thesis using sum_take_le [of i "take j ls"] by simp
qed

lemma locate_sound:
  "k < sum_list ls \<Longrightarrow> locate ls m k = (m', d') \<Longrightarrow>
     m \<le> m' \<and> m' < m + length ls \<and> 1 \<le> d' \<and> d' \<le> ls ! (m' - m) \<and>
     sum_list (take (m' - m) ls) + (d' - 1) = k"
proof (induction ls arbitrary: m k)
  case Nil
  then show ?case by simp
next
  case (Cons l ls)
  show ?case
  proof (cases "k < l")
    case True
    with Cons.prems show ?thesis by auto
  next
    case False
    with Cons.prems have loc: "locate ls (Suc m) (k - l) = (m', d')" and lt: "k - l < sum_list ls"
      by auto
    from Cons.IH [OF lt loc] have ih: "Suc m \<le> m'" "m' < Suc m + length ls" "1 \<le> d'"
      "d' \<le> ls ! (m' - Suc m)" "sum_list (take (m' - Suc m) ls) + (d' - 1) = k - l"
      by simp_all
    from ih(1) have step: "m' - m = Suc (m' - Suc m)" by simp
    from ih False show ?thesis by (simp add: step)
  qed
qed


lemma length_month_lengths: "length (month_lengths y) = 12"
  by (simp add: month_lengths_def)

lemma valid_date_month_index:
  assumes "valid_date d"
  shows "month d - 1 < length (month_lengths (year d))"
    and "1 \<le> day d" and "day d \<le> month_lengths (year d) ! (month d - 1)"
  using assms by (auto simp: valid_date_def days_in_month_def length_month_lengths)

lemma yday_lt_year:
  assumes "valid_date d"
  shows "yday d < sum_list (month_lengths (year d))"
proof -
  note v = valid_date_month_index [OF assms]
  have "yday d < sum_list (take (Suc (month d - 1)) (month_lengths (year d)))"
    using v by (simp add: yday_def sum_take_Suc)
  also have "\<dots> \<le> sum_list (month_lengths (year d))" by (rule sum_take_le)
  finally show ?thesis .
qed


lemma from_yday_props:
  assumes "k < sum_list (month_lengths y)" and "1 \<le> y" and "y \<le> 9999"
  shows "valid_date (from_yday y k)" and "year (from_yday y k) = y"
    and "yday (from_yday y k) = k"
proof -
  obtain m' d' where loc: "locate (month_lengths y) 1 k = (m', d')"
    by (cases "locate (month_lengths y) 1 k")
  note s = locate_sound [OF assms(1) loc]
  have f: "from_yday y k = \<lparr>year = y, month = m', day = d'\<rparr>"
    using loc by (simp add: from_yday_def)
  from s show "valid_date (from_yday y k)"
    using assms(2,3) by (simp add: f valid_date_def days_in_month_def length_month_lengths)
  show "year (from_yday y k) = y" by (simp add: f)
  from s show "yday (from_yday y k) = k" by (simp add: f yday_def)
qed

lemma yday_le_iff:
  assumes "valid_date a" and "valid_date b" and "year a = year b"
  shows "date_le a b \<longleftrightarrow> yday a \<le> yday b"
proof -
  let ?L = "month_lengths (year b)"
  note va = valid_date_month_index [OF assms(1)] and vb = valid_date_month_index [OF assms(2)]
  have lt: "yday x < yday z"
    if "valid_date x" "valid_date z" "year x = year b" "year z = year b" "month x < month z"
    for x z
  proof -
    note vx = valid_date_month_index [OF that(1)]
    have "yday x < sum_list (take (Suc (month x - 1)) ?L)"
      using vx that(3) by (simp add: yday_def sum_take_Suc)
    also have "\<dots> \<le> sum_list (take (month z - 1) ?L)"
      using that(1,5) by (intro sum_take_mono) (simp add: valid_date_def)
    also have "\<dots> \<le> yday z" using that(4) by (simp add: yday_def)
    finally show ?thesis .
  qed
  consider "month a < month b" | "month b < month a" | "month a = month b" by linarith
  then show ?thesis
  proof cases
    case 1
    from lt [OF assms(1,2) assms(3) refl 1] 1 assms(3) show ?thesis
      by (simp add: date_le_def)
  next
    case 2
    from lt [OF assms(2,1) refl assms(3) 2] 2 assms(3) show ?thesis
      by (auto simp add: date_le_def)
  next
    case 3
    with assms(3) va(2) vb(2) show ?thesis
      by (auto simp add: date_le_def yday_def)
  qed
qed

subsection \<open>Decimal digits\<close>

lemma digit_val_digit: "k < 10 \<Longrightarrow> digit_val (digit k) = Some k"
  by (simp add: digit_val_def digit_def)

lemma parse_digits_append:
  "parse_digits acc (xs @ ys) =
     (case parse_digits acc xs of None \<Rightarrow> None | Some a \<Rightarrow> parse_digits a ys)"
proof (induction xs arbitrary: acc)
  case Nil
  show ?case by simp
next
  case (Cons c cs)
  show ?case
  proof (cases "digit_val c")
    case None
    then show ?thesis by simp
  next
    case (Some v)
    then show ?thesis by (simp add: Cons.IH)
  qed
qed

lemma parse_digits_dec: "parse_digits 0 (dec n) = Some n"
proof (induction n rule: dec.induct)
  case (1 n)
  show ?case
  proof (cases "n < 10")
    case True
    then show ?thesis by (simp add: dec.simps [of n] digit_val_digit)
  next
    case False
    with 1 have ih: "parse_digits 0 (dec (n div 10)) = Some (n div 10)" by simp
    have "dec n = dec (n div 10) @ [digit (n mod 10)]"
      using False by (simp add: dec.simps [of n])
    then show ?thesis
      by (simp add: parse_digits_append ih digit_val_digit)
  qed
qed

lemma parse_digits_zeros:
  "parse_digits 0 (replicate k (CHR ''0'') @ s) = parse_digits 0 s"
  by (induction k) (simp_all add: digit_val_def)

lemma parse_digits_zfill: "parse_digits 0 (zfill w (dec n)) = Some n"
  by (simp add: zfill_def parse_digits_zeros parse_digits_dec)

lemma length_dec_pos: "0 < length (dec n)"
  by (subst dec.simps) simp

lemma length_dec_le: "0 < k \<Longrightarrow> n < 10 ^ k \<Longrightarrow> length (dec n) \<le> k"
proof (induction n arbitrary: k rule: dec.induct)
  case (1 n)
  show ?case
  proof (cases "n < 10")
    case True
    with 1(2) show ?thesis by (simp add: dec.simps [of n])
  next
    case False
    with 1(3) have "1 < k" by (cases "k = 1") (use 1(2) in auto)
    then obtain j where j: "k = Suc j" "0 < j" by (cases k) auto
    with 1(3) have "n div 10 < 10 ^ j" by (simp add: less_mult_imp_div_less mult.commute)
    from 1(1) [OF False j(2) this] j False show ?thesis
      by (simp add: dec.simps [of n])
  qed
qed

lemma length_zfill: "length s \<le> w \<Longrightarrow> length (zfill w s) = w"
  by (simp add: zfill_def)

lemma zfill_dec_length:
  assumes "0 < k" and "n < 10 ^ k"
  shows "length (zfill k (dec n)) = k"
  by (rule length_zfill) (rule length_dec_le [OF assms])

subsection \<open>\<open>strftime\<close> and reading back\<close>

lemma ymd_shape:
  fixes A B C :: string
  assumes "length A = 4" "length B = 2" "length C = 2"
  shows "length (A @ ''-'' @ B @ ''-'' @ C) = 10"
    and "(A @ ''-'' @ B @ ''-'' @ C) ! 4 = CHR ''-''"
    and "(A @ ''-'' @ B @ ''-'' @ C) ! 7 = CHR ''-''"
    and "take 4 (A @ ''-'' @ B @ ''-'' @ C) = A"
    and "take 2 (drop 5 (A @ ''-'' @ B @ ''-'' @ C)) = B"
    and "drop 8 (A @ ''-'' @ B @ ''-'' @ C) = C"
  using assms by (simp_all add: nth_append)

lemma valid_date_bounds:
  assumes "valid_date d"
  shows "year d < 10 ^ 4" and "month d < 10 ^ 2" and "day d < 10 ^ 2"
proof -
  from assms show "year d < 10 ^ 4" and "month d < 10 ^ 2" by (simp_all add: valid_date_def)
  from assms have m: "month d - 1 < 12" and dd: "day d \<le> month_lengths (year d) ! (month d - 1)"
    by (auto simp: valid_date_def days_in_month_def)
  have "\<forall>x\<in>set (month_lengths (year d)). x \<le> 31"
    by (simp add: month_lengths_def)
  moreover have "month_lengths (year d) ! (month d - 1) \<in> set (month_lengths (year d))"
    using m by (intro nth_mem) (simp add: length_month_lengths)
  ultimately have "month_lengths (year d) ! (month d - 1) \<le> 31" by blast
  with dd show "day d < 10 ^ 2" by simp
qed

lemma pydate_eta: "\<lparr>year = year d, month = month d, day = day d\<rparr> = (d :: pydate)"
  by (cases d) simp

lemma strftime_ymd_shape:
  assumes "valid_date d"
  shows "length (strftime_ymd d) = 10"
    and "strftime_ymd d ! 4 = CHR ''-''" and "strftime_ymd d ! 7 = CHR ''-''"
    and "parse_ymd (strftime_ymd d) = Some d"
proof -
  note b = valid_date_bounds [OF assms]
  have l: "length (zfill 4 (dec (year d))) = 4" "length (zfill 2 (dec (month d))) = 2"
    "length (zfill 2 (dec (day d))) = 2"
    using b by (simp_all add: zfill_dec_length)
  note sh = ymd_shape [OF l, folded strftime_ymd_def]
  show "length (strftime_ymd d) = 10" and "strftime_ymd d ! 4 = CHR ''-''"
    and "strftime_ymd d ! 7 = CHR ''-''"
    by (rule sh)+
  show "parse_ymd (strftime_ymd d) = Some d"
    using assms by (simp add: parse_ymd_def sh parse_digits_zfill Let_def pydate_eta)
qed


subsection \<open>The date\<close>

lemma field_date:
  assumes "generate_fake_review w = Inr (r, w')"
  shows "map_of r ''date'' =
     Some (PyStr (strftime_ymd (from_yday (year (date_today w))
        (tape (faker_random w) (Suc (used (faker_random w))) mod (yday (date_today w) + 1)))))"
  unfolding generate_fake_review_result(1) [OF assms] by simp

lemma valid_date_year:
  "valid_date d \<Longrightarrow> 1 \<le> year d \<and> year d \<le> 9999"
  by (simp add: valid_date_def)

lemma this_year_so_far:
  assumes v: "valid_date today" and k: "k \<le> yday today"
  shows "valid_date (from_yday (year today) k)"
    and "year (from_yday (year today) k) = year today"
    and "yday (from_yday (year today) k) = k"
    and "date_le (from_yday (year today) k) today"
    and "date_le (today\<lparr>month := 1, day := 1\<rparr>) (from_yday (year today) k)"
proof -
  from k yday_lt_year [OF v] have lt: "k < sum_list (month_lengths (year today))" by simp
  note y = valid_date_year [OF v]
  note p = from_yday_props [OF lt y [THEN conjunct1] y [THEN conjunct2]]
  show "valid_date (from_yday (year today) k)" by (rule p(1))
  show "year (from_yday (year today) k) = year today" by (rule p(2))
  show "yday (from_yday (year today) k) = k" by (rule p(3))
  show "date_le (from_yday (year today) k) today"
    using yday_le_iff [OF p(1) v p(2)] k by (simp add: p(3))
  from p(1) have "1 \<le> month (from_yday (year today) k)" "1 \<le> day (from_yday (year today) k)"
    by (simp_all add: valid_date_def)
  then show "date_le (today\<lparr>month := 1, day := 1\<rparr>) (from_yday (year today) k)"
    by (auto simp add: date_le_def p(2))
qed


text \<open>
  C10. The date of every returned record is a day between 1 January of the year read
  from the system date and that system date itself, both ends included: never a day
  after the day of the call.
\<close>

theorem date_between_new_year_and_today:
  assumes "valid_date (date_today w)" and "generate_fake_review w = Inr (r, w')"
  shows "\<exists>d. map_of r ''date'' = Some (PyStr (strftime_ymd d)) \<and>
              parse_ymd (strftime_ymd d) = Some d \<and>
              date_le ((date_today w)\<lparr>month := 1, day := 1\<rparr>) d \<and>
              date_le d (date_today w)"
proof -
  let ?k = "tape (faker_random w) (Suc (used (faker_random w))) mod (yday (date_today w) + 1)"
  have "?k < yday (date_today w) + 1" by (rule mod_less_divisor) simp
  then have k: "?k \<le> yday (date_today w)" by arith
  note p = this_year_so_far [OF assms(1) k]
  show ?thesis
    by (rule exI [of _ "from_yday (year (date_today w)) ?k"])
      (intro conjI field_date [OF assms(2)] strftime_ymd_shape(4) [OF p(1)] p(5) p(4))
qed

theorem date_between_new_year_and_today_witness:
  "valid_date (date_today example_world) \<and>
   (\<exists>r w' d. generate_fake_review example_world = Inr (r, w') \<and>
      map_of r ''date'' = Some (PyStr (strftime_ymd d)) \<and>
      date_le \<lparr>year = 2024, month = 1, day = 1\<rparr> d \<and>
      date_le d \<lparr>year = 2024, month = 3, day = 1\<rparr>)"
proof -
  have t: "date_today example_world = \<lparr>year = 2024, month = 3, day = 1\<rparr>"
    by (simp add: date_today_def example_world_def)
  have v: "valid_date (date_today example_world)"
    by (simp add: t valid_date_def days_in_month_def month_lengths_def)
  obtain r w' where g: "generate_fake_review example_world = Inr (r, w')"
    using generate_fake_review_succeeds [OF pools_nonempty [OF example_world_loaded]] by blast
  from date_between_new_year_and_today [OF v g] obtain d where
    "map_of r ''date'' = Some (PyStr (strftime_ymd d))"
    "date_le ((date_today example_world)\<lparr>month := 1, day := 1\<rparr>) d"
    "date_le d (date_today example_world)"
    by blast
  with g v show ?thesis unfolding t by auto
qed

lemma xmas_2024:
  "valid_date \<lparr>year = 2024, month = 12, day = 25\<rparr>"
  "yday \<lparr>year = 2024, month = 12, day = 25\<rparr> = 359"
  "yday \<lparr>year = 2024, month = 3, day = 1\<rparr> = 60"
  "valid_date \<lparr>year = 2024, month = 3, day = 1\<rparr>"
  by (simp_all add: valid_date_def days_in_month_def month_lengths_def is_leap_def yday_def)





subsection \<open>Frame\<close>

lemma only_consumes_randomness_refl: "only_consumes_randomness w w"
  by (simp add: only_consumes_randomness_def)

lemma only_consumes_randomness_trans:
  "only_consumes_randomness a b \<Longrightarrow> only_consumes_randomness b c \<Longrightarrow>
     only_consumes_randomness a c"
  by (simp add: only_consumes_randomness_def)

lemma only_consumes_randomness_loaded:
  "only_consumes_randomness w w' \<Longrightarrow> module_loaded w \<Longrightarrow> module_loaded w'"
  by (simp add: only_consumes_randomness_def module_loaded_def)

lemma only_consumes_randomness_today:
  "only_consumes_randomness w w' \<Longrightarrow> date_today w' = date_today w"
  by (simp add: only_consumes_randomness_def date_today_def)

lemma generate_fake_review_frame:
  assumes "generate_fake_review w = Inr (r, w')"
  shows "only_consumes_randomness w w'"
  unfolding generate_fake_review_result(2) [OF assms]
  by (simp add: only_consumes_randomness_def)

lemma pool_fields_are_members_aux:
  assumes "module_loaded w" and "generate_fake_review w = Inr (r, w')"
  shows "\<exists>a t b. map_of r ''airline'' = Some (PyStr a) \<and> a \<in> set airlines_literal \<and>
                  map_of r ''title'' = Some (PyStr t) \<and> t \<in> set sample_titles_literal \<and>
                  map_of r ''body'' = Some (PyStr b) \<and> b \<in> set sample_bodies_literal"
proof -
  have eqs: "airlines w = airlines_literal" "sample_titles w = sample_titles_literal"
    "sample_bodies w = sample_bodies_literal"
    using assms(1) by (simp_all add: module_loaded_def)
  note ne = pools_nonempty [OF assms(1)]
  have "airlines w ! (tape (random_inst w) (used (random_inst w)) mod length (airlines w))
      \<in> set airlines_literal"
    using nth_mod_mem [OF ne(1)] by (simp only: eqs)
  moreover have "sample_titles w ! (tape (random_inst w) (Suc (used (random_inst w))) mod length (sample_titles w))
      \<in> set sample_titles_literal"
    using nth_mod_mem [OF ne(2)] by (simp only: eqs)
  moreover have "sample_bodies w ! (tape (random_inst w) (Suc (Suc (used (random_inst w)))) mod length (sample_bodies w))
      \<in> set sample_bodies_literal"
    using nth_mod_mem [OF ne(3)] by (simp only: eqs)
  ultimately show ?thesis
    using field_airline [OF assms(2)] field_title [OF assms(2)] field_body [OF assms(2)]
    by blast
qed

lemma generate_fake_review_valid:
  assumes l: "module_loaded w" and v: "valid_date (date_today w)"
    and g: "generate_fake_review w = Inr (r, w')"
  shows "valid_review (date_today w) r"
proof -
  from pool_fields_are_members_aux [OF l g] obtain a t b where
    f: "map_of r ''airline'' = Some (PyStr a)" "a \<in> set airlines_literal"
       "map_of r ''title'' = Some (PyStr t)" "t \<in> set sample_titles_literal"
       "map_of r ''body'' = Some (PyStr b)" "b \<in> set sample_bodies_literal"
    by blast
  let ?n = "1 + int (tape (random_inst w) (Suc (Suc (Suc (used (random_inst w))))) mod 5)"
  have n: "1 \<le> ?n" "?n \<le> 5" by simp_all
  let ?k = "tape (faker_random w) (Suc (used (faker_random w))) mod (yday (date_today w) + 1)"
  let ?d = "from_yday (year (date_today w)) ?k"
  have "?k < yday (date_today w) + 1" by (rule mod_less_divisor) simp
  then have k: "?k \<le> yday (date_today w)" by arith
  note p = this_year_so_far [OF v k]
  have d: "parse_ymd (strftime_ymd ?d) = Some ?d" by (rule strftime_ymd_shape(4) [OF p(1)])
  show ?thesis
    unfolding valid_review_def
    by (simp only: f field_rating [OF g] field_date [OF g] d p(2) n option.case pyval.case
        simp_thms)
qed

lemma generate_n_ok:
  assumes "module_loaded w" and "valid_date (date_today w)"
  shows "\<exists>rs w'. generate_n n w = Inr (rs, w') \<and> length rs = n \<and>
           (\<forall>r\<in>set rs. valid_review (date_today w) r) \<and> only_consumes_randomness w w'"
  using assms
proof (induction n arbitrary: w)
  case 0
  show ?case by (simp add: only_consumes_randomness_refl)
next
  case (Suc n)
  from generate_fake_review_succeeds [OF pools_nonempty [OF Suc.prems(1)]]
  obtain r w1 where g: "generate_fake_review w = Inr (r, w1)" by blast
  note f1 = generate_fake_review_frame [OF g]
  note l1 = only_consumes_randomness_loaded [OF f1 Suc.prems(1)]
  note t1 = only_consumes_randomness_today [OF f1]
  from Suc.prems(2) have v1: "valid_date (date_today w1)" by (simp only: t1)
  from Suc.IH [OF l1 v1] obtain rs w2 where
    n: "generate_n n w1 = Inr (rs, w2)" and len: "length rs = n"
    and val: "\<forall>r\<in>set rs. valid_review (date_today w1) r"
    and f2: "only_consumes_randomness w1 w2" by blast
  have "generate_n (Suc n) w = Inr (r # rs, w2)"
    by (simp add: g n py_bind_def)
  moreover have "length (r # rs) = Suc n" by (simp add: len)
  moreover have "\<forall>x\<in>set (r # rs). valid_review (date_today w) x"
    using val generate_fake_review_valid [OF Suc.prems g] by (simp add: t1)
  moreover note only_consumes_randomness_trans [OF f1 f2]
  ultimately show ?case by blast
qed

text \<open>
  C8. A call that returns leaves every part of the world as it was, the three pools
  included, except that the generators of \<open>random\<close>, of the operating system and of
  Faker have advanced on their tapes. Hence \<open>n\<close> calls in a row on a loaded module
  all return: they yield \<open>n\<close> records, each valid on its own, and the pools are still
  the ones the module loaded.
\<close>

theorem calls_only_consume_randomness:
  "(\<forall>r w'. generate_fake_review w = Inr (r, w') \<longrightarrow>
       only_consumes_randomness w w' \<and> airlines w' = airlines w \<and>
       sample_titles w' = sample_titles w \<and> sample_bodies w' = sample_bodies w) \<and>
   (module_loaded w \<and> valid_date (date_today w) \<longrightarrow>
      (\<exists>rs w'. generate_n n w = Inr (rs, w') \<and> length rs = n \<and>
         (\<forall>r\<in>set rs. valid_review (date_today w) r) \<and>
         only_consumes_randomness w w' \<and> module_loaded w'))"
proof -
  have a: "\<forall>r w'. generate_fake_review w = Inr (r, w') \<longrightarrow>
       only_consumes_randomness w w' \<and> airlines w' = airlines w \<and>
       sample_titles w' = sample_titles w \<and> sample_bodies w' = sample_bodies w"
  proof (intro allI impI)
    fix r w' assume "generate_fake_review w = Inr (r, w')"
    from generate_fake_review_frame [OF this]
    show "only_consumes_randomness w w' \<and> airlines w' = airlines w \<and>
       sample_titles w' = sample_titles w \<and> sample_bodies w' = sample_bodies w"
      by (simp add: only_consumes_randomness_def)
  qed
  have b: "module_loaded w \<and> valid_date (date_today w) \<longrightarrow>
      (\<exists>rs w'. generate_n n w = Inr (rs, w') \<and> length rs = n \<and>
         (\<forall>r\<in>set rs. valid_review (date_today w) r) \<and>
         only_consumes_randomness w w' \<and> module_loaded w')"
  proof
    assume h: "module_loaded w \<and> valid_date (date_today w)"
    from generate_n_ok [OF h [THEN conjunct1] h [THEN conjunct2], of n]
    obtain rs w' where p: "generate_n n w = Inr (rs, w')" "length rs = n"
      "\<forall>r\<in>set rs. valid_review (date_today w) r" "only_consumes_randomness w w'" by blast
    note only_consumes_randomness_loaded [OF p(4) h [THEN conjunct1]]
    with p show "\<exists>rs w'. generate_n n w = Inr (rs, w') \<and> length rs = n \<and>
         (\<forall>r\<in>set rs. valid_review (date_today w) r) \<and>
         only_consumes_randomness w w' \<and> module_loaded w'" by blast
  qed
  from a b show ?thesis by (rule conjI)
qed

theorem calls_only_consume_randomness_witness:
  "module_loaded example_world \<and> valid_date (date_today example_world) \<and>
   (\<exists>r w'. generate_fake_review example_world = Inr (r, w') \<and>
      only_consumes_randomness example_world w') \<and>
   (\<exists>rs w'. generate_n 3 example_world = Inr (rs, w') \<and> length rs = 3 \<and>
      (\<forall>r\<in>set rs. valid_review (date_today example_world) r) \<and> module_loaded w')"
proof -
  note t = calls_only_consume_randomness [of example_world 3]
  have d: "date_today example_world = \<lparr>year = 2024, month = 3, day = 1\<rparr>"
    by (simp add: date_today_def example_world_def)
  have v: "valid_date (date_today example_world)" by (simp only: d xmas_2024(4))
  note l = example_world_loaded
  obtain r w' where g: "generate_fake_review example_world = Inr (r, w')"
    using generate_fake_review_succeeds [OF pools_nonempty [OF l]] by blast
  from t [THEN conjunct1, THEN spec, THEN spec, THEN mp, OF g]
  have one: "\<exists>r w'. generate_fake_review example_world = Inr (r, w') \<and>
      only_consumes_randomness example_world w'"
    using g by blast
  from t [THEN conjunct2, THEN mp, OF conjI [OF l v]]
  have many: "\<exists>rs w'. generate_n 3 example_world = Inr (rs, w') \<and> length rs = 3 \<and>
      (\<forall>r\<in>set rs. valid_review (date_today example_world) r) \<and> module_loaded w'"
    by blast
  from l v one many show ?thesis by (intro conjI)
qed

subsection \<open>The whole record\<close>








subsection \<open>Rendering stays on one line\<close>













subsection \<open>One iteration of the driver\<close>


lemma loop_body_Inl:
  assumes "generate_fake_review w = Inl e"
  shows "loop_body w = Inl e"
  by (simp add: loop_body_def assms py_bind_def)







subsection \<open>The loop never ends\<close>







end
